theory Spec2Isabelle
  imports Main "HOL-Library.Word"
begin

section \<open>Infomap utils/Logger.h: data model\<close>

text \<open>
  The header declares two classes, \<open>Log\<close> and \<open>Logger\<close>, whose state is a handful of
  static members, and one manipulator struct \<open>hideIf\<close>. The statics are defined in a
  translation unit that is not part of the sources at hand, so their initial values are
  not fixed here: every function takes the current values as its argument.
\<close>

type_synonym uint = "32 word"

text \<open>
  What can be inserted into a \<open>std::ostream\<close> through the template
  \<open>operator<< (const T&)\<close>: a value that is printed, or the object returned by
  \<open>std::setprecision(int)\<close>, which prints nothing and sets the stream's precision.
\<close>

datatype datum = Str string | UInt uint

datatype insertable = Value datum | Setprecision int

text \<open>Function manipulators \<open>std::ostream& (*f)(std::ostream&)\<close>.\<close>

datatype manip = Endl | Flush

text \<open>
  An output stream: the values inserted so far, in order and as they were handed over,
  and the floating-point precision in force.
\<close>

record ostream =
  written :: "datum list"
  precision :: int

definition newline :: char where
  "newline = CHR 0x0A"

definition tab :: char where
  "tab = CHR 0x09"

fun ostream_shl :: "ostream \<Rightarrow> insertable \<Rightarrow> ostream" where
  "ostream_shl os (Value d) = os\<lparr>written := written os @ [d]\<rparr>"
| "ostream_shl os (Setprecision n) = os\<lparr>precision := n\<rparr>"

fun ostream_apply :: "ostream \<Rightarrow> manip \<Rightarrow> ostream" where
  "ostream_apply os Endl = os\<lparr>written := written os @ [Str [newline]]\<rparr>"
| "ostream_apply os Flush = os"

text \<open>
  \<open>Log::m_ostream\<close> is a reference member; a reference is modelled by the name of the
  stream object it is bound to.
\<close>

datatype stream_ref = StdCout | StdCerr

text \<open>
  \<open>SafeOutFile\<close> comes from \<open>../io/SafeFile.h\<close>; the header only uses its constructor,
  \<open>is_open()\<close> and \<open>operator<<\<close>.
\<close>

record SafeOutFile =
  is_open :: bool
  contents :: string

text \<open>
  The process state the header reads and writes: the statics of \<open>Log\<close> (note that
  \<open>s_silent\<close> is declared \<open>unsigned int\<close>), the statics of \<open>Logger\<close>, the function-local
  static \<open>logFile\<close> of \<open>Logger::benchmark\<close> (\<open>None\<close> until its initialisation has run),
  the two standard streams, and the paths the file system lets the process open for
  writing.
\<close>

record world =
  s_verboseLevel :: uint
  s_silent :: uint
  s_indentLevel :: uint
  s_indentWidth :: uint
  s_indentString :: string
  s_benchmarkFilename :: string
  MAX_INDENT_LEVEL :: uint
  logFile :: "SafeOutFile option"
  cout :: ostream
  cerr :: ostream
  openable :: "string list"

record Log =
  m_level :: uint
  m_maxLevel :: uint
  m_visible :: bool
  m_ostream :: stream_ref

text \<open>\<open>struct hideIf { bool hide; }\<close>\<close>

datatype hideIf = HideIf (hideIf_hide: bool)

section \<open>class Log\<close>

definition setVerboseLevel :: "uint \<Rightarrow> world \<Rightarrow> world" where
  "setVerboseLevel level s = s\<lparr>s_verboseLevel := level\<rparr>"

definition verboseLevel :: "world \<Rightarrow> uint" where
  "verboseLevel s = s_verboseLevel s"

text \<open>The \<open>bool\<close> argument is converted to \<open>unsigned int\<close>: 1 or 0.\<close>

definition setSilent :: "bool \<Rightarrow> world \<Rightarrow> world" where
  "setSilent silent s = s\<lparr>s_silent := (if silent then 1 else 0)\<rparr>"

text \<open>The \<open>unsigned int\<close> is converted to \<open>bool\<close>: non-zero is true.\<close>

definition isSilent :: "world \<Rightarrow> bool" where
  "isSilent s = (s_silent s \<noteq> 0)"

definition levelVisible :: "world \<Rightarrow> uint \<Rightarrow> uint \<Rightarrow> bool" where
  "levelVisible s level maxLevel =
     (\<not> (s_silent s \<noteq> 0) \<and> s_verboseLevel s \<ge> level \<and> s_verboseLevel s \<le> maxLevel)"

definition getOutputStream :: "uint \<Rightarrow> uint \<Rightarrow> stream_ref" where
  "getOutputStream level maxLevel = StdCout"

text \<open>\<open>std::numeric_limits<unsigned int>::max()\<close>\<close>

definition uint_max :: uint where
  "uint_max = - 1"

text \<open>The constructor \<open>Log(level, maxLevel)\<close>; both arguments have defaults.\<close>

definition Log_ctor :: "world \<Rightarrow> uint \<Rightarrow> uint \<Rightarrow> Log" where
  "Log_ctor s level maxLevel =
     \<lparr>m_level = level, m_maxLevel = maxLevel,
      m_visible = levelVisible s level maxLevel,
      m_ostream = getOutputStream level maxLevel\<rparr>"

definition Log_ctor1 :: "world \<Rightarrow> uint \<Rightarrow> Log" where
  "Log_ctor1 s level = Log_ctor s level uint_max"

definition Log_ctor0 :: "world \<Rightarrow> Log" where
  "Log_ctor0 s = Log_ctor s 0 uint_max"

definition Log_copy :: "Log \<Rightarrow> Log" where
  "Log_copy other =
     \<lparr>m_level = m_level other, m_maxLevel = m_maxLevel other,
      m_visible = m_visible other, m_ostream = m_ostream other\<rparr>"

text \<open>\<open>operator=\<close> leaves the reference member as it is.\<close>

definition Log_assign :: "Log \<Rightarrow> Log \<Rightarrow> Log" where
  "Log_assign this other =
     this\<lparr>m_level := m_level other, m_maxLevel := m_maxLevel other,
          m_visible := m_visible other\<rparr>"

text \<open>The member \<open>levelVisible()\<close> reads the statics at the time of the call.\<close>

definition Log_levelVisible :: "world \<Rightarrow> Log \<Rightarrow> bool" where
  "Log_levelVisible s this = levelVisible s (m_level this) (m_maxLevel this)"

definition hide :: "world \<Rightarrow> Log \<Rightarrow> bool \<Rightarrow> Log" where
  "hide s this v = this\<lparr>m_visible := (\<not> v \<and> Log_levelVisible s this)\<rparr>"

text \<open>The member \<open>Log& operator<< (const hideIf& manip)\<close>: its body is \<open>return *this\<close>.\<close>

definition Log_shl_hideIf :: "Log \<Rightarrow> hideIf \<Rightarrow> Log" where
  "Log_shl_hideIf this manip = this"

text \<open>The friend \<open>Log& operator<< (Log& out, const hideIf& manip)\<close> of \<open>hideIf\<close>.\<close>

definition hideIf_shl :: "world \<Rightarrow> Log \<Rightarrow> hideIf \<Rightarrow> Log" where
  "hideIf_shl s out manip = hide s out (hideIf_hide manip)"

text \<open>Reading and updating the stream object a reference is bound to.\<close>

fun deref :: "stream_ref \<Rightarrow> world \<Rightarrow> ostream" where
  "deref StdCout s = cout s"
| "deref StdCerr s = cerr s"

fun store :: "stream_ref \<Rightarrow> ostream \<Rightarrow> world \<Rightarrow> world" where
  "store StdCout os s = s\<lparr>cout := os\<rparr>"
| "store StdCerr os s = s\<lparr>cerr := os\<rparr>"

text \<open>
  \<open>template<typename T> Log& operator<< (const T& data)\<close>: the returned reference is
  \<open>*this\<close>, the first component; the second is the process state afterwards.
\<close>

definition Log_shl :: "Log \<Rightarrow> insertable \<Rightarrow> world \<Rightarrow> Log \<times> world" where
  "Log_shl this d s =
     (this,
      if m_visible this
      then store (m_ostream this) (ostream_shl (deref (m_ostream this) s) d) s
      else s)"

text \<open>\<open>Log& operator<< (std::ostream& (*f)(std::ostream&))\<close>\<close>

definition Log_shl_manip :: "Log \<Rightarrow> manip \<Rightarrow> world \<Rightarrow> Log \<times> world" where
  "Log_shl_manip this f s =
     (this,
      if m_visible this
      then store (m_ostream this) (ostream_apply (deref (m_ostream this) s) f) s
      else s)"

text \<open>
  \<open>Log::init\<close>. \<open>std::setprecision\<close> takes an \<open>int\<close>, so the \<open>unsigned int\<close> argument is
  converted at the call.
\<close>

definition init :: "uint \<Rightarrow> bool \<Rightarrow> uint \<Rightarrow> world \<Rightarrow> world" where
  "init verbLevel silent numberPrecision s =
     (let s1 = setVerboseLevel verbLevel s;
          s2 = setSilent silent s1
      in snd (Log_shl (Log_ctor0 s2) (Setprecision (sint numberPrecision)) s2))"

subsection \<open>Chained statements\<close>

text \<open>
  A statement \<open>h << x1 << x2 << ...\<close>: every \<open>operator<<\<close> returns the handle, to which
  the next item is appended. For a \<open>hideIf\<close> item the header has two operator functions,
  the member of \<open>Log\<close> and the friend of \<open>hideIf\<close>; the item says which one is called.
\<close>

datatype chain_item =
  Ins insertable | Man manip | HideMember hideIf | HideFriend hideIf

fun Log_chain :: "Log \<Rightarrow> chain_item list \<Rightarrow> world \<Rightarrow> Log \<times> world" where
  "Log_chain h [] s = (h, s)"
| "Log_chain h (Ins d # xs) s =
     (case Log_shl h d s of (h', s') \<Rightarrow> Log_chain h' xs s')"
| "Log_chain h (Man f # xs) s =
     (case Log_shl_manip h f s of (h', s') \<Rightarrow> Log_chain h' xs s')"
| "Log_chain h (HideMember m # xs) s = Log_chain (Log_shl_hideIf h m) xs s"
| "Log_chain h (HideFriend m # xs) s = Log_chain (hideIf_shl s h m) xs s"

text \<open>A process state for the examples: verbosity 1, not silent, nothing written yet.\<close>

definition world0 :: world where
  "world0 =
     \<lparr>s_verboseLevel = 1, s_silent = 0, s_indentLevel = 0, s_indentWidth = 2,
      s_indentString = [], s_benchmarkFilename = ''bench.tsv'', MAX_INDENT_LEVEL = 4,
      logFile = None,
      cout = \<lparr>written = [], precision = 6\<rparr>,
      cerr = \<lparr>written = [], precision = 6\<rparr>,
      openable = [''bench.tsv'']\<rparr>"

section \<open>class Logger\<close>

definition pushIndentLevel :: "world \<Rightarrow> world" where
  "pushIndentLevel s = s\<lparr>s_indentLevel := s_indentLevel s + 1\<rparr>"

definition underflow_warning :: string where
  "underflow_warning = ''Warning: Calling Logger::popIndentLevel when already zero!''"

definition popIndentLevel :: "world \<Rightarrow> world" where
  "popIndentLevel s =
     (if s_indentLevel s = 0
      then s\<lparr>cerr := ostream_apply (ostream_shl (cerr s) (Value (Str underflow_warning))) Endl\<rparr>
      else s\<lparr>s_indentLevel := s_indentLevel s - 1\<rparr>)"

text \<open>
  \<open>Logger::indent\<close> returns a reference to the cached string; the model returns its value
  and the state with the cache as the call leaves it. The product is computed in
  \<open>unsigned int\<close> and then compared with, and passed as, a \<open>size_t\<close>.
\<close>

definition indent :: "world \<Rightarrow> string \<times> world" where
  "indent s =
     (let s' = (if length (s_indentString s) \<noteq> unat (s_indentLevel s * s_indentWidth s)
                then s\<lparr>s_indentString :=
                        replicate (unat (s_indentLevel s * s_indentWidth s)) CHR '' ''\<rparr>
                else s)
      in (s_indentString s', s'))"

definition indentLevel :: "world \<Rightarrow> uint" where
  "indentLevel s = s_indentLevel s"

definition setBenchmarkFilename :: "string \<Rightarrow> world \<Rightarrow> world" where
  "setBenchmarkFilename filename s = s\<lparr>s_benchmarkFilename := filename\<rparr>"

text \<open>
  Modelled from the spec: the constructor of \<open>SafeOutFile\<close>, whose header
  \<open>../io/SafeFile.h\<close> is not among the sources. The spec describes a sink that is opened
  once and either is open afterwards or has failed to open, with no error surfaced; the
  file starts empty. Whether a path can be opened is the file system's answer.
\<close>

definition SafeOutFile_ctor :: "string list \<Rightarrow> string \<Rightarrow> SafeOutFile" where
  "SafeOutFile_ctor paths filename = \<lparr>is_open = (filename \<in> set paths), contents = []\<rparr>"

text \<open>Inserting text into the file stream appends it to the file.\<close>

definition SafeOutFile_shl :: "SafeOutFile \<Rightarrow> string \<Rightarrow> SafeOutFile" where
  "SafeOutFile_shl f txt = f\<lparr>contents := contents f @ txt\<rparr>"

text \<open>\<open>operator<<\<close> for \<open>unsigned int\<close> on a stream with default flags: decimal digits.\<close>

definition digit_char :: "nat \<Rightarrow> char" where
  "digit_char d = ''0123456789'' ! d"

fun show_nat :: "nat \<Rightarrow> string" where
  "show_nat n = (if n < 10 then [digit_char n] else show_nat (n div 10) @ [digit_char (n mod 10)])"

declare show_nat.simps [simp del]

definition show_uint :: "uint \<Rightarrow> string" where
  "show_uint w = show_nat (unat w)"

text \<open>
  The function-local \<open>static SafeOutFile logFile(s_benchmarkFilename.c_str())\<close>: it is
  constructed when control first passes through its declaration, from the file name
  current at that moment, and is that same object on every later call.
\<close>

definition static_logFile :: "world \<Rightarrow> SafeOutFile" where
  "static_logFile s =
     (case logFile s of
        None \<Rightarrow> SafeOutFile_ctor (openable s) (s_benchmarkFilename s)
      | Some f \<Rightarrow> f)"

text \<open>
  \<open>Logger::benchmark\<close>. The two \<open>double\<close> values, \<open>codelength\<close> and the reading of
  \<open>Stopwatch::getElapsedTimeSinceProgramStartInSec()\<close> (declared in \<open>Stopwatch.h\<close>), are
  of an unspecified type \<open>'d\<close>; \<open>fmt\<close> is what \<open>operator<<\<close> prints for such a value.
\<close>

definition benchmark ::
  "('d \<Rightarrow> string) \<Rightarrow> 'd \<Rightarrow> string \<Rightarrow> 'd \<Rightarrow> uint \<Rightarrow> uint \<Rightarrow> uint \<Rightarrow> bool \<Rightarrow> world \<Rightarrow> world"
where
  "benchmark fmt elapsed tag codelength numTopModules numNonTrivialTopModules numLevels
     writeOnlyTag s =
     (let f = static_logFile s in
      if is_open f
      then
        (if writeOnlyTag
         then s\<lparr>logFile := Some (SafeOutFile_shl (SafeOutFile_shl f tag) [newline])\<rparr>
         else s\<lparr>logFile := Some
           (SafeOutFile_shl (SafeOutFile_shl (SafeOutFile_shl (SafeOutFile_shl
           (SafeOutFile_shl (SafeOutFile_shl (SafeOutFile_shl (SafeOutFile_shl
           (SafeOutFile_shl (SafeOutFile_shl (SafeOutFile_shl (SafeOutFile_shl f
              (fmt elapsed)) [tab]) tag) [tab])
              (fmt codelength)) [tab]) (show_uint numTopModules)) [tab])
              (show_uint numNonTrivialTopModules)) [tab])
              (show_uint numLevels)) [newline])\<rparr>)
      else s\<lparr>logFile := Some f\<rparr>)"

section \<open>Output macros\<close>

text \<open>
  With \<open>NO_DEBUG_LOGGING\<close> defined, as the header defines it, \<open>DEBUG_OUT\<close> expands to
  nothing, and \<open>RELEASE_OUT\<close>, \<open>ALL_OUT\<close> and \<open>INFO_OUT\<close> all expand to \<open>std::cout << x\<close>.
\<close>

definition RELEASE_OUT :: "insertable \<Rightarrow> world \<Rightarrow> world" where
  "RELEASE_OUT x s = s\<lparr>cout := ostream_shl (cout s) x\<rparr>"

definition INDENTED_RELEASE_OUT :: "insertable \<Rightarrow> world \<Rightarrow> world" where
  "INDENTED_RELEASE_OUT x s =
     (if indentLevel s \<le> MAX_INDENT_LEVEL s
      then (case indent s of
              (txt, s') \<Rightarrow> s'\<lparr>cout := ostream_shl (ostream_shl (cout s') (Value (Str txt))) x\<rparr>)
      else s)"

section \<open>Sequences of calls\<close>

text \<open>The calls that move the indentation, and a run of them in order.\<close>

datatype indent_call = Push | Pop | Indent

fun indent_step :: "indent_call \<Rightarrow> world \<Rightarrow> world" where
  "indent_step Push s = pushIndentLevel s"
| "indent_step Pop s = popIndentLevel s"
| "indent_step Indent s = snd (indent s)"

fun run_indent :: "indent_call list \<Rightarrow> world \<Rightarrow> world" where
  "run_indent [] s = s"
| "run_indent (c # cs) s = run_indent cs (indent_step c s)"

text \<open>
  Every entry point of the header as a call: the static functions, a logging statement
  \<open>Log(level, maxLevel) << ...\<close> on a fresh handle, and the output macros.
\<close>

datatype 'd call =
    CallInit uint bool uint
  | CallSetVerboseLevel uint
  | CallSetSilent bool
  | CallLog uint uint "chain_item list"
  | CallPushIndentLevel
  | CallPopIndentLevel
  | CallIndent
  | CallSetBenchmarkFilename string
  | CallBenchmark 'd string 'd uint uint uint bool
  | CallReleaseOut insertable
  | CallIndentedReleaseOut insertable

fun exec :: "('d \<Rightarrow> string) \<Rightarrow> 'd call \<Rightarrow> world \<Rightarrow> world" where
  "exec fmt (CallInit v b p) s = init v b p s"
| "exec fmt (CallSetVerboseLevel v) s = setVerboseLevel v s"
| "exec fmt (CallSetSilent b) s = setSilent b s"
| "exec fmt (CallLog level maxLevel xs) s = snd (Log_chain (Log_ctor s level maxLevel) xs s)"
| "exec fmt CallPushIndentLevel s = pushIndentLevel s"
| "exec fmt CallPopIndentLevel s = popIndentLevel s"
| "exec fmt CallIndent s = snd (indent s)"
| "exec fmt (CallSetBenchmarkFilename p) s = setBenchmarkFilename p s"
| "exec fmt (CallBenchmark e tag c a b l w) s = benchmark fmt e tag c a b l w s"
| "exec fmt (CallReleaseOut x) s = RELEASE_OUT x s"
| "exec fmt (CallIndentedReleaseOut x) s = INDENTED_RELEASE_OUT x s"

fun run :: "('d \<Rightarrow> string) \<Rightarrow> 'd call list \<Rightarrow> world \<Rightarrow> world" where
  "run fmt [] s = s"
| "run fmt (c # cs) s = run fmt cs (exec fmt c s)"

fun is_benchmark :: "'d call \<Rightarrow> bool" where
  "is_benchmark (CallBenchmark e tag c a b l w) = True"
| "is_benchmark _ = False"

text \<open>
  What has been sent anywhere but the standard output stream: the values written to the
  standard error stream and the text of the benchmark file.
\<close>

definition file_text :: "world \<Rightarrow> string" where
  "file_text s = (case logFile s of None \<Rightarrow> [] | Some f \<Rightarrow> contents f)"

definition elsewhere :: "world \<Rightarrow> datum list \<times> string" where
  "elsewhere s = (written (cerr s), file_text s)"

section \<open>Reading the benchmark file\<close>

text \<open>
  The file format in the words of the specification: records are lines, each ended by a
  newline, and the fields of a record are separated by single tab characters.
\<close>

fun split_on :: "char \<Rightarrow> string \<Rightarrow> string list" where
  "split_on c [] = [[]]"
| "split_on c (x # xs) =
     (if x = c then [] # split_on c xs
      else (case split_on c xs of
              [] \<Rightarrow> [[x]]
            | y # ys \<Rightarrow> (x # y) # ys))"

definition fields_of :: "string \<Rightarrow> string list" where
  "fields_of line = split_on tab line"

definition lines_of :: "string \<Rightarrow> string list" where
  "lines_of txt = butlast (split_on newline txt)"

fun join_fields :: "string list \<Rightarrow> string" where
  "join_fields [] = []"
| "join_fields [x] = x"
| "join_fields (x # y # ys) = x @ [tab] @ join_fields (y # ys)"

text \<open>
  The fields of a benchmark record in the order the specification lists them, and what
  it takes for a text to be a single field of a single line.
\<close>

definition benchmark_fields ::
  "('d \<Rightarrow> string) \<Rightarrow> 'd \<Rightarrow> string \<Rightarrow> 'd \<Rightarrow> uint \<Rightarrow> uint \<Rightarrow> uint \<Rightarrow> bool \<Rightarrow> string list"
where
  "benchmark_fields fmt elapsed tag codelength numTopModules numNonTrivialTopModules numLevels
     writeOnlyTag =
     (if writeOnlyTag then [tag]
      else [fmt elapsed, tag, fmt codelength, show_uint numTopModules,
            show_uint numNonTrivialTopModules, show_uint numLevels])"

definition clean :: "string \<Rightarrow> bool" where
  "clean x = (tab \<notin> set x \<and> newline \<notin> set x)"

text \<open>A process state in which the benchmark file has been opened and is still empty.\<close>

definition world_open :: world where
  "world_open = world0\<lparr>logFile := Some \<lparr>is_open = True, contents = []\<rparr>\<rparr>"

text \<open>A process state whose benchmark path the file system does not let it open.\<close>

definition world_nofile :: world where
  "world_nofile = world0\<lparr>s_benchmarkFilename := ''/no/such/dir/bench.tsv''\<rparr>"

section \<open>Invariant of the indentation cache\<close>

text \<open>
  \<open>s_indentString\<close> is private and only \<open>indent()\<close> assigns to it, always a run of
  spaces: once the cached string holds nothing but spaces (the empty string does), it
  does so for the rest of the process.
\<close>

definition cache_ok :: "world \<Rightarrow> bool" where
  "cache_ok s = (set (s_indentString s) \<subseteq> {CHR '' ''})"

section \<open>Theorems: the visibility gate\<close>

lemma levelVisible_iff:
  "levelVisible s level maxLevel =
     (\<not> isSilent s \<and> level \<le> verboseLevel s \<and> verboseLevel s \<le> maxLevel)"
  by (simp add: levelVisible_def isSilent_def verboseLevel_def)

lemma isSilent_setSilent: "isSilent (setSilent b s) = b"
  by (simp add: isSilent_def setSilent_def)

lemma verboseLevel_setSilent: "verboseLevel (setSilent b s) = verboseLevel s"
  by (simp add: verboseLevel_def setSilent_def)

lemma le_uint_max: "(v :: uint) \<le> uint_max"
  by (simp add: uint_max_def)

text \<open>
  Claim C1. A handle constructed as \<open>Log(level, maxLevel)\<close> has
  \<open>visible = (!silent && level <= verboseLevel && verboseLevel <= maxLevel)\<close>, read from
  the global configuration at construction; the flag is a stored copy, so changing the
  configuration afterwards and appending to the handle leaves it as it was. With the
  default \<open>maxLevel\<close> and \<open>silent = false\<close> the handle is visible iff
  \<open>level <= verboseLevel\<close>, and after \<open>setSilent(true)\<close> every newly constructed handle is
  invisible.
\<close>

theorem C1_visible_at_construction:
  "m_visible (Log_ctor s level maxLevel) =
     (\<not> isSilent s \<and> level \<le> verboseLevel s \<and> verboseLevel s \<le> maxLevel)
   \<and> m_visible (fst (Log_shl (Log_ctor s level maxLevel) d
                       (setSilent b (setVerboseLevel v s)))) =
     m_visible (Log_ctor s level maxLevel)
   \<and> m_visible (Log_ctor1 (setSilent False s) level) = (level \<le> verboseLevel s)
   \<and> m_visible (Log_ctor (setSilent True s) level maxLevel) = False"
  by (simp add: Log_ctor_def Log_ctor1_def Log_shl_def levelVisible_iff
      isSilent_setSilent verboseLevel_setSilent le_uint_max)

section \<open>Appending to a handle\<close>

lemma deref_store_same: "deref r (store r os s) = os"
  by (cases r) simp_all

lemma store_other_fields:
  "s_verboseLevel (store r os s) = s_verboseLevel s"
  "s_silent (store r os s) = s_silent s"
  "s_indentLevel (store r os s) = s_indentLevel s"
  "s_indentWidth (store r os s) = s_indentWidth s"
  "s_indentString (store r os s) = s_indentString s"
  "s_benchmarkFilename (store r os s) = s_benchmarkFilename s"
  "logFile (store r os s) = logFile s"
  "openable (store r os s) = openable s"
  by (cases r; simp)+

lemma m_ostream_Log_ctor: "m_ostream (Log_ctor s level maxLevel) = StdCout"
  by (simp add: Log_ctor_def getOutputStream_def)

text \<open>
  Claim C9. Appending a value or a function manipulator returns the same handle. When
  the handle's \<open>visible\<close> flag is false, the process state is left as it was; when it is
  true, the stream the handle is bound to receives exactly that value (or has the
  manipulator applied), nothing else changes, and two appends in a row arrive in the
  order they were written.
\<close>

theorem C9_append_gated:
  "fst (Log_shl h d s) = h \<and> fst (Log_shl_manip h f s) = h
   \<and> (\<not> m_visible h \<longrightarrow> snd (Log_shl h d s) = s \<and> snd (Log_shl_manip h f s) = s)
   \<and> (m_visible h \<longrightarrow>
        snd (Log_shl h d s) = store (m_ostream h) (ostream_shl (deref (m_ostream h) s) d) s
      \<and> snd (Log_shl_manip h f s) =
          store (m_ostream h) (ostream_apply (deref (m_ostream h) s) f) s
      \<and> written (deref (m_ostream h) (snd (Log_shl h (Value v) s))) =
          written (deref (m_ostream h) s) @ [v]
      \<and> written (deref (m_ostream h)
           (snd (Log_chain h [Ins (Value v), Ins (Value v')] s))) =
          written (deref (m_ostream h) s) @ [v, v'])"
  by (simp add: Log_shl_def Log_shl_manip_def deref_store_same)

theorem C9_append_gated_witness:
  "m_visible (Log_ctor1 world0 0) \<and> \<not> m_visible (Log_ctor1 world0 2)
   \<and> snd (Log_shl (Log_ctor1 world0 2) (Value (Str ''x'')) world0) = world0
   \<and> written (cout (snd (Log_shl (Log_ctor1 world0 0) (Value (Str ''x'')) world0))) =
       [Str ''x'']"
proof -
  have vis: "m_visible (Log_ctor1 world0 0)"
    by (simp add: Log_ctor1_def Log_ctor_def levelVisible_def world0_def uint_max_def)
  have invis: "\<not> m_visible (Log_ctor1 world0 2)"
    by (simp add: Log_ctor1_def Log_ctor_def levelVisible_def world0_def uint_max_def word_le_nat_alt)
  have out: "m_ostream (Log_ctor1 world0 0) = StdCout"
    by (simp add: Log_ctor1_def m_ostream_Log_ctor)
  have w: "written (cout world0) = []"
    by (simp add: world0_def)
  from C9_append_gated [where h = "Log_ctor1 world0 2" and d = "Value (Str ''x'')" and s = world0] invis
  have a: "snd (Log_shl (Log_ctor1 world0 2) (Value (Str ''x'')) world0) = world0"
    by simp
  from C9_append_gated [where h = "Log_ctor1 world0 0" and s = world0 and v = "Str ''x''"] vis
  have "written (deref (m_ostream (Log_ctor1 world0 0))
          (snd (Log_shl (Log_ctor1 world0 0) (Value (Str ''x'')) world0))) =
        written (deref (m_ostream (Log_ctor1 world0 0)) world0) @ [Str ''x'']"
    by blast
  then have b: "written (cout (snd (Log_shl (Log_ctor1 world0 0) (Value (Str ''x'')) world0)))
        = [Str ''x'']"
    by (simp add: out w)
  from vis invis a b show ?thesis by simp
qed

section \<open>Explicit hiding\<close>

lemma hide_invisible_id: "\<not> m_visible h \<Longrightarrow> \<not> Log_levelVisible s h \<Longrightarrow> hide s h v = h"
  by (simp add: hide_def)

text \<open>
  Claim C4, as stated: for every handle, when the level/silence gate is not satisfied,
  \<open>hide\<close> has no observable effect. The gate is read from the configuration at the time
  of the call, the \<open>visible\<close> flag is the copy taken at construction: the handle \<open>Log(1)\<close>
  constructed at verbosity 1 is visible, after \<open>setVerboseLevel(0)\<close> its gate no longer
  holds, and \<open>hide(false)\<close> then switches it off.
\<close>

theorem C4_stale_handle_switched_off:
  "m_visible (Log_ctor1 world0 1)
   \<and> \<not> Log_levelVisible (setVerboseLevel 0 world0) (Log_ctor1 world0 1)
   \<and> \<not> m_visible (hide (setVerboseLevel 0 world0) (Log_ctor1 world0 1) False)
   \<and> hide (setVerboseLevel 0 world0) (Log_ctor1 world0 1) False \<noteq> Log_ctor1 world0 1"
proof -
  have a: "m_visible (Log_ctor1 world0 1)"
    by (simp add: Log_ctor1_def Log_ctor_def levelVisible_def world0_def uint_max_def)
  have b: "\<not> Log_levelVisible (setVerboseLevel 0 world0) (Log_ctor1 world0 1)"
    by (simp add: Log_levelVisible_def Log_ctor1_def Log_ctor_def levelVisible_def
        setVerboseLevel_def)
  from b have c: "\<not> m_visible (hide (setVerboseLevel 0 world0) (Log_ctor1 world0 1) False)"
    by (simp add: hide_def)
  from a c
  have d: "hide (setVerboseLevel 0 world0) (Log_ctor1 world0 1) False \<noteq> Log_ctor1 world0 1"
    by auto
  from a b c d show ?thesis by blast
qed

text \<open>
  Claim C4, amended. For every handle, \<open>hide(flag)\<close> sets \<open>visible\<close> to
  \<open>!flag && gate\<close>, the gate being the handle's level/silence gate under the configuration
  at the time of the call, and changes nothing else of the handle. So \<open>hide(true)\<close> always
  makes the handle invisible, and \<open>hide(true)\<close> followed by \<open>hide(false)\<close> leaves
  \<open>visible\<close> true exactly when the gate holds. When the gate does not hold, the handle is
  invisible after \<open>hide(v)\<close> for either \<open>v\<close>: a handle that was invisible already (as is
  every handle constructed under this configuration) is returned unchanged, and a handle
  that was still visible is switched off. A handle that is visible after \<open>hide\<close> always
  satisfies the gate: hiding never widens.
\<close>

theorem C4_hide_narrows:
  "m_visible (hide s h v) = (\<not> v \<and> Log_levelVisible s h)
   \<and> m_level (hide s h v) = m_level h
   \<and> m_maxLevel (hide s h v) = m_maxLevel h
   \<and> m_ostream (hide s h v) = m_ostream h
   \<and> \<not> m_visible (hide s h True)
   \<and> m_visible (hide s (hide s h True) False) = Log_levelVisible s h
   \<and> (\<not> Log_levelVisible s h \<longrightarrow> \<not> m_visible (hide s h v))
   \<and> (\<not> Log_levelVisible s h \<longrightarrow> \<not> m_visible h \<longrightarrow> hide s h v = h)
   \<and> (\<not> Log_levelVisible s h \<longrightarrow> m_visible h \<longrightarrow> hide s h v = h\<lparr>m_visible := False\<rparr>)
   \<and> (\<not> levelVisible s level maxLevel \<longrightarrow>
        hide s (Log_ctor s level maxLevel) v = Log_ctor s level maxLevel)
   \<and> (m_visible (hide s h v) \<longrightarrow> Log_levelVisible s h)"
proof -
  have x: "m_visible (hide s h v) = (\<not> v \<and> Log_levelVisible s h)
     \<and> m_level (hide s h v) = m_level h
     \<and> m_maxLevel (hide s h v) = m_maxLevel h
     \<and> m_ostream (hide s h v) = m_ostream h
     \<and> \<not> m_visible (hide s h True)"
    by (simp add: hide_def)
  have a: "m_visible (hide s (hide s h True) False) = Log_levelVisible s h"
    by (simp add: hide_def Log_levelVisible_def)
  have b: "\<not> Log_levelVisible s h \<longrightarrow> \<not> m_visible (hide s h v)"
    by (simp add: hide_def)
  have c: "\<not> Log_levelVisible s h \<longrightarrow> \<not> m_visible h \<longrightarrow> hide s h v = h"
    by (simp add: hide_invisible_id)
  have c': "\<not> Log_levelVisible s h \<longrightarrow> m_visible h \<longrightarrow> hide s h v = h\<lparr>m_visible := False\<rparr>"
    by (simp add: hide_def)
  have d: "\<not> levelVisible s level maxLevel \<longrightarrow>
        hide s (Log_ctor s level maxLevel) v = Log_ctor s level maxLevel"
    by (simp add: hide_def Log_levelVisible_def Log_ctor_def)
  have e: "m_visible (hide s h v) \<longrightarrow> Log_levelVisible s h"
    by (simp add: hide_def)
  from x a b c c' d e show ?thesis by blast
qed

theorem C4_hide_narrows_witness:
  "Log_levelVisible world0 (Log_ctor1 world0 0)
   \<and> \<not> m_visible (hide world0 (Log_ctor1 world0 0) True)
   \<and> m_visible (hide world0 (hide world0 (Log_ctor1 world0 0) True) False)
   \<and> \<not> levelVisible world0 2 uint_max
   \<and> hide world0 (Log_ctor world0 2 uint_max) False = Log_ctor world0 2 uint_max
   \<and> \<not> m_visible (hide world0 (Log_ctor world0 2 uint_max) False)"
proof -
  have g: "Log_levelVisible world0 (Log_ctor1 world0 0)"
    by (simp add: Log_levelVisible_def Log_ctor1_def Log_ctor_def levelVisible_def
        world0_def uint_max_def)
  have n: "\<not> levelVisible world0 2 uint_max"
    by (simp add: levelVisible_def world0_def uint_max_def word_le_nat_alt)
  have n': "\<not> Log_levelVisible world0 (Log_ctor world0 2 uint_max)"
    using n by (simp add: Log_levelVisible_def Log_ctor_def)
  from C4_hide_narrows [where s = world0 and h = "Log_ctor1 world0 0"]
  have t: "\<not> m_visible (hide world0 (Log_ctor1 world0 0) True)"
    by blast
  from C4_hide_narrows [where s = world0 and h = "Log_ctor1 world0 0"] g
  have a: "m_visible (hide world0 (hide world0 (Log_ctor1 world0 0) True) False)"
    by blast
  from C4_hide_narrows [where s = world0 and level = 2 and maxLevel = uint_max and v = False] n
  have b: "hide world0 (Log_ctor world0 2 uint_max) False = Log_ctor world0 2 uint_max"
    by blast
  from C4_hide_narrows [where s = world0 and h = "Log_ctor world0 2 uint_max" and v = False] n'
  have c: "\<not> m_visible (hide world0 (Log_ctor world0 2 uint_max) False)"
    by blast
  from g t a n b c show ?thesis by blast
qed

section \<open>The hideIf manipulator\<close>

lemma Log_chain_invisible:
  "\<not> m_visible h \<Longrightarrow> Log_chain h (map Ins ds) s = (h, s)"
  by (induction ds) (simp_all add: Log_shl_def)

text \<open>
  The friend operator of \<open>hideIf\<close> does call \<open>hide\<close>: with a true predicate, a visible
  handle emits the prefix and nothing that is appended after the token.
\<close>

lemma hideIf_friend_suppresses:
  "m_visible h \<Longrightarrow>
   snd (Log_chain h (Ins (Value v) # HideFriend (HideIf True) # map Ins ds) s) =
   store (m_ostream h) (ostream_shl (deref (m_ostream h) s) (Value v)) s"
  by (simp add: Log_shl_def hideIf_shl_def hide_def Log_chain_invisible)

text \<open>
  Claim C3. Appending a \<open>hideIf\<close> token to a handle invokes the handle's
  \<open>hide(predicate)\<close> and returns the handle. The member \<open>Log::operator<<(const hideIf&)\<close>
  returns the handle without calling \<open>hide\<close>: on the visible handle \<open>Log(0)\<close>, appending
  \<open>hideIf(true)\<close> through it leaves the handle visible, where \<open>hide(true)\<close> would have
  made it invisible, and what is appended afterwards is still written.
\<close>

theorem C3_member_ignores_hideIf:
  "m_visible (Log_ctor1 world0 0) = True
   \<and> m_visible (Log_shl_hideIf (Log_ctor1 world0 0) (HideIf True)) = True
   \<and> m_visible (hide world0 (Log_ctor1 world0 0) (hideIf_hide (HideIf True))) = False
   \<and> written (cout (snd (Log_chain (Log_ctor1 world0 0)
        [HideMember (HideIf True), Ins (Value (Str ''suffix''))] world0))) = [Str ''suffix'']"
  by (simp add: Log_shl_hideIf_def hide_def Log_ctor1_def Log_ctor_def levelVisible_def
      Log_levelVisible_def Log_shl_def getOutputStream_def world0_def uint_max_def)

section \<open>Log::init\<close>

lemma init_unfold:
  "init v b p s =
     (if b then setSilent b (setVerboseLevel v s)
      else (setSilent b (setVerboseLevel v s))\<lparr>cout := (cout s)\<lparr>precision := sint p\<rparr>\<rparr>)"
  by (simp add: init_def Log_shl_def Log_ctor0_def Log_ctor_def levelVisible_def
      getOutputStream_def setSilent_def setVerboseLevel_def uint_max_def Let_def)

lemma sint_small: "unat (p::uint) < 2 ^ 31 \<Longrightarrow> sint p = int (unat p)"
proof -
  assume "unat p < 2 ^ 31"
  then have a: "unat p < 2147483648"
    by simp
  have u: "uint p = int (unat p)"
    by simp
  from a have lt: "uint p < 2147483648"
    unfolding u by linarith
  have ge: "- 2147483648 \<le> uint p"
    unfolding u by linarith
  from ge lt have "signed_take_bit 31 (uint p) = uint p"
    using signed_take_bit_int_eq_self [of 31 "uint p"] by simp
  then show ?thesis
    by (simp add: sint_uint)
qed

lemma sint_large: "2 ^ 31 \<le> unat (p::uint) \<Longrightarrow> sint p = int (unat p) - 2 ^ 32"
proof -
  assume "2 ^ 31 \<le> unat p"
  then have a: "2147483648 \<le> unat p"
    by simp
  have u: "uint p = int (unat p)"
    by simp
  from a have ge: "2147483648 \<le> uint p"
    unfolding u by linarith
  have "uint p < 2 ^ LENGTH(32)"
    by (rule uint_lt2p)
  then have lt: "uint p < 4294967296"
    by simp
  have e: "uint p + 2147483648 = (uint p - 2147483648) + 4294967296"
    by simp
  have "(uint p + 2147483648) mod 4294967296 = (uint p - 2147483648) mod 4294967296"
    by (simp only: e mod_add_self2)
  also from ge lt have "\<dots> = uint p - 2147483648"
    by (intro mod_pos_pos_trivial) linarith+
  finally have m: "(uint p + 2147483648) mod 4294967296 = uint p - 2147483648" .
  have "sint p = take_bit 32 (uint p + 2 ^ 31) - 2 ^ 31"
    using signed_take_bit_eq_take_bit_shift [of 31 "uint p"] by (simp add: sint_uint)
  also have "\<dots> = (uint p + 2147483648) mod 4294967296 - 2147483648"
    by (simp add: take_bit_eq_mod)
  also have "\<dots> = uint p - 4294967296"
    by (simp only: m)
  finally show ?thesis
    by simp
qed

text \<open>
  Claim C2, as stated: \<open>init(level, silent, precision)\<close> applies \<open>precision\<close> to the shared
  sink for every combination of arguments. It does not when \<open>silent\<close> is true:
  \<open>init(1, true, 3)\<close> on a sink whose precision is 6 leaves it at 6.
\<close>

theorem C2_silent_init_keeps_precision:
  "precision (cout (init 1 True 3 world0)) = 6
   \<and> precision (cout (init 1 True 3 world0)) \<noteq> sint (3 :: uint)"
  by (simp add: init_unfold setSilent_def setVerboseLevel_def world0_def)

text \<open>
  Claim C2, amended. \<open>init(level, silent, precision)\<close> sets the verbosity level and the
  silence flag. When \<open>silent\<close> is false, it then sets the precision of the shared sink to
  \<open>precision\<close> converted to the \<open>int\<close> that \<open>std::setprecision\<close> receives: \<open>precision\<close>
  itself when it is below \<open>2^31\<close>, and \<open>precision - 2^32\<close> from \<open>2^31\<close> on. It writes
  nothing, and every handle constructed later is bound to that sink. When \<open>silent\<close> is
  true, the throwaway handle is invisible and the sink is left as it was.
\<close>

theorem C2_init_precision_unless_silent:
  "verboseLevel (init v b p s) = v
   \<and> isSilent (init v b p s) = b
   \<and> (\<not> b \<longrightarrow> precision (cout (init v b p s)) = sint p
              \<and> written (cout (init v b p s)) = written (cout s)
              \<and> precision (deref (m_ostream (Log_ctor s' level maxLevel)) (init v b p s)) =
                  sint p)
   \<and> (\<not> b \<longrightarrow> unat p < 2 ^ 31 \<longrightarrow> precision (cout (init v b p s)) = int (unat p))
   \<and> (\<not> b \<longrightarrow> 2 ^ 31 \<le> unat p \<longrightarrow>
        precision (cout (init v b p s)) = int (unat p) - 2 ^ 32)
   \<and> (b \<longrightarrow> cout (init v b p s) = cout s)"
proof -
  have large: "2 ^ 31 \<le> unat p \<longrightarrow> sint p = int (unat p) - 2 ^ 32"
    using sint_large [of p] by blast
  have small: "unat p < 2 ^ 31 \<longrightarrow> sint p = int (unat p)"
    using sint_small [of p] by blast
  have f: "verboseLevel (init v b p s) = v \<and> isSilent (init v b p s) = b
     \<and> (\<not> b \<longrightarrow> precision (cout (init v b p s)) = sint p
              \<and> written (cout (init v b p s)) = written (cout s)
              \<and> precision (deref (m_ostream (Log_ctor s' level maxLevel)) (init v b p s)) =
                  sint p)
     \<and> (b \<longrightarrow> cout (init v b p s) = cout s)"
    by (simp add: init_unfold verboseLevel_def isSilent_def setSilent_def setVerboseLevel_def
        m_ostream_Log_ctor)
  from f small large show ?thesis
    by (cases b) simp_all
qed

theorem C2_init_precision_unless_silent_witness:
  "verboseLevel (init 1 False 3 world0) = 1
   \<and> \<not> isSilent (init 1 False 3 world0)
   \<and> precision (cout (init 1 False 3 world0)) = 3
   \<and> precision (cout (init 1 False 4294967295 world0)) = - 1
   \<and> cout (init 1 True 3 world0) = cout world0"
proof -
  have small: "unat (3 :: uint) < 2 ^ 31"
    by simp
  have large: "2 ^ 31 \<le> unat (4294967295 :: uint)"
    by simp
  from C2_init_precision_unless_silent [where v = 1 and b = False and p = 3 and s = world0]
  have a: "verboseLevel (init 1 False 3 world0) = 1 \<and> \<not> isSilent (init 1 False 3 world0)"
    by simp
  from C2_init_precision_unless_silent [where b = False and p = 3] small
  have b: "precision (cout (init 1 False 3 world0)) = 3"
    by simp
  from C2_init_precision_unless_silent [where b = False and p = 4294967295] large
  have l: "precision (cout (init 1 False 4294967295 world0)) = - 1"
    by simp
  from C2_init_precision_unless_silent [where b = True]
  have c: "cout (init 1 True 3 world0) = cout world0"
    by simp
  from a b l c show ?thesis by simp
qed

section \<open>Indentation\<close>

text \<open>
  Claim C8. \<open>popIndentLevel\<close> at depth 0 leaves the depth at 0 and writes the warning and
  a line end to the standard error stream, not to the standard output stream; at a depth
  above 0 it takes exactly one off the depth and writes nothing. It has no other outcome:
  the function returns in both branches.
\<close>

theorem C8_pop_clamps_at_zero:
  "(s_indentLevel s = 0 \<longrightarrow>
      s_indentLevel (popIndentLevel s) = 0
    \<and> written (cerr (popIndentLevel s)) =
        written (cerr s) @ [Str underflow_warning, Str [newline]]
    \<and> popIndentLevel s =
        s\<lparr>cerr := (cerr s)\<lparr>written :=
             written (cerr s) @ [Str underflow_warning, Str [newline]]\<rparr>\<rparr>
    \<and> cout (popIndentLevel s) = cout s)
   \<and> (s_indentLevel s \<noteq> 0 \<longrightarrow>
      unat (s_indentLevel (popIndentLevel s)) + 1 = unat (s_indentLevel s)
    \<and> popIndentLevel s = s\<lparr>s_indentLevel := s_indentLevel s - 1\<rparr>)"
  by (simp add: popIndentLevel_def unat_gt_0 unat_minus_one)

theorem C8_pop_clamps_at_zero_witness:
  "s_indentLevel world0 = 0
   \<and> s_indentLevel (popIndentLevel world0) = 0
   \<and> written (cerr (popIndentLevel world0)) = [Str underflow_warning, Str [newline]]
   \<and> cout (popIndentLevel world0) = cout world0
   \<and> s_indentLevel (pushIndentLevel world0) \<noteq> 0
   \<and> unat (s_indentLevel (popIndentLevel (pushIndentLevel world0))) + 1 =
       unat (s_indentLevel (pushIndentLevel world0))"
proof -
  have z: "s_indentLevel world0 = 0"
    by (simp add: world0_def)
  have e: "written (cerr world0) = []"
    by (simp add: world0_def)
  have nz: "s_indentLevel (pushIndentLevel world0) \<noteq> 0"
    by (simp add: pushIndentLevel_def world0_def)
  from C8_pop_clamps_at_zero [where s = world0] z e
  have a: "s_indentLevel (popIndentLevel world0) = 0
     \<and> written (cerr (popIndentLevel world0)) = [Str underflow_warning, Str [newline]]
     \<and> cout (popIndentLevel world0) = cout world0"
    by simp
  from C8_pop_clamps_at_zero [where s = "pushIndentLevel world0"] nz
  have b: "unat (s_indentLevel (popIndentLevel (pushIndentLevel world0))) + 1 =
       unat (s_indentLevel (pushIndentLevel world0))"
    by blast
  from z a nz b show ?thesis by blast
qed

lemma fst_indent:
  "fst (indent s) =
     (if length (s_indentString s) \<noteq> unat (s_indentLevel s * s_indentWidth s)
      then replicate (unat (s_indentLevel s * s_indentWidth s)) CHR '' ''
      else s_indentString s)"
  by (simp add: indent_def Let_def)

lemma length_indent: "length (fst (indent s)) = unat (s_indentLevel s * s_indentWidth s)"
  by (simp add: fst_indent)

lemma indent_spaces:
  "cache_ok s \<Longrightarrow> fst (indent s) = replicate (unat (s_indentLevel s * s_indentWidth s)) CHR '' ''"
proof (cases "length (s_indentString s) = unat (s_indentLevel s * s_indentWidth s)")
  case True
  assume "cache_ok s"
  then have "\<forall>y \<in> set (s_indentString s). y = CHR '' ''"
    by (auto simp: cache_ok_def)
  then have "replicate (length (s_indentString s)) CHR '' '' = s_indentString s"
    by (rule replicate_length_same)
  with True show ?thesis
    by (simp add: fst_indent)
next
  case False
  then show ?thesis
    by (simp add: fst_indent)
qed

lemma indent_step_cache_ok: "cache_ok s \<Longrightarrow> cache_ok (indent_step c s)"
  by (cases c) (auto simp add: cache_ok_def pushIndentLevel_def popIndentLevel_def indent_def Let_def)

lemma indent_step_width: "s_indentWidth (indent_step c s) = s_indentWidth s"
  by (cases c) (simp_all add: pushIndentLevel_def popIndentLevel_def indent_def Let_def)

lemma run_indent_cache_ok: "cache_ok s \<Longrightarrow> cache_ok (run_indent cs s)"
  by (induction cs arbitrary: s) (simp_all add: indent_step_cache_ok)

lemma run_indent_width: "s_indentWidth (run_indent cs s) = s_indentWidth s"
  by (induction cs arbitrary: s) (simp_all add: indent_step_width)

lemma run_indent_append: "run_indent (xs @ ys) s = run_indent ys (run_indent xs s)"
  by (induction xs arbitrary: s) simp_all

lemma run_pushes:
  "run_indent (replicate n Push) s = s\<lparr>s_indentLevel := s_indentLevel s + of_nat n\<rparr>"
  by (induction n arbitrary: s) (simp_all add: pushIndentLevel_def add.assoc add.commute)

lemma run_pops:
  "n \<le> unat (s_indentLevel s) \<Longrightarrow>
   run_indent (replicate n Pop) s = s\<lparr>s_indentLevel := s_indentLevel s - of_nat n\<rparr>"
proof (induction n arbitrary: s)
  case 0
  then show ?case by simp
next
  case (Suc n)
  from Suc.prems have nz: "s_indentLevel s \<noteq> 0"
    by (auto simp: unat_eq_0)
  then have u: "unat (s_indentLevel s - 1) = unat (s_indentLevel s) - 1"
    by (simp add: unat_minus_one)
  have "run_indent (replicate (Suc n) Pop) s =
        run_indent (replicate n Pop) (s\<lparr>s_indentLevel := s_indentLevel s - 1\<rparr>)"
    using nz by (simp add: popIndentLevel_def)
  also have "\<dots> = s\<lparr>s_indentLevel := s_indentLevel s - 1 - of_nat n\<rparr>"
    using Suc.prems u by (subst Suc.IH) simp_all
  finally show ?case
    by (simp add: diff_diff_eq add.commute)
qed

lemma unat_add_nat:
  assumes "unat (w::uint) + n < 2 ^ 32"
  shows "unat (w + of_nat n) = unat w + n"
proof -
  from assms have n: "n < 2 ^ 32" by simp
  then have un: "unat (of_nat n :: uint) = n"
    by (simp add: unat_of_nat take_bit_nat_eq_self)
  with assms have "unat w + unat (of_nat n :: uint) < 2 ^ LENGTH(32)"
    by simp
  then have "unat (w + of_nat n) = unat w + unat (of_nat n :: uint)"
    by (simp only: unat_add_lem)
  with un show ?thesis by simp
qed

lemma push_pop_restore:
  assumes "unat (s_indentLevel s) + n < 2 ^ 32"
  shows "run_indent (replicate n Push @ replicate n Pop) s = s"
proof -
  have "unat (s_indentLevel s + of_nat n) = unat (s_indentLevel s) + n"
    using assms by (rule unat_add_nat)
  then have "n \<le> unat (s_indentLevel (s\<lparr>s_indentLevel := s_indentLevel s + of_nat n\<rparr>))"
    by simp
  then show ?thesis
    by (simp add: run_indent_append run_pushes run_pops)
qed

lemma unat_mult32: "unat (a * b :: uint) = (unat a * unat b) mod 2 ^ 32"
  by (simp add: unat_word_ariths)

text \<open>
  Claim C5, as stated: after any finite sequence of pushes and pops, \<open>N\<close> pops right after
  \<open>N\<close> pushes restore the original indent text. After 4294967295 pushes the depth is the
  largest \<open>unsigned int\<close>; one more push wraps it to 0, where the pop stops, and the
  indent text is empty instead of the 4294967294 spaces it was before.
\<close>

theorem C5_push_pop_wraps:
  "fst (indent (run_indent (replicate 4294967295 Push @ [Push] @ [Pop]) world0))
   \<noteq> fst (indent (run_indent (replicate 4294967295 Push) world0))"
proof -
  have a: "length (fst (indent
      (run_indent (replicate 4294967295 Push @ [Push] @ [Pop]) world0))) = 0"
    by (simp add: length_indent run_indent_append run_pushes pushIndentLevel_def
        popIndentLevel_def world0_def)
  have b: "length (fst (indent (run_indent (replicate 4294967295 Push) world0))) = 4294967294"
    by (simp add: length_indent run_pushes world0_def)
  from a b show ?thesis by auto
qed

text \<open>
  Claim C5, amended. After every finite sequence of \<open>pushIndentLevel\<close>,
  \<open>popIndentLevel\<close> and \<open>indent\<close> calls, \<open>indent()\<close> returns a string whose length is
  \<open>depth * width\<close> in \<open>unsigned int\<close> arithmetic, that is \<open>depth * width\<close> modulo \<open>2^32\<close>,
  and when the cache held only spaces at the start the string is that many spaces. The
  string returned is the cached one, and a cache of the right length is left alone. A pop
  never takes the depth below zero: it does not increase it and leaves 0 at 0. \<open>N\<close> pops
  right after \<open>N\<close> pushes restore the whole state, and so the indent text, whenever
  \<open>depth + N\<close> stays below \<open>2^32\<close>.
\<close>

theorem C5_indent_tracks_depth:
  "(cache_ok s \<longrightarrow>
      cache_ok (run_indent cs s)
    \<and> fst (indent (run_indent cs s)) =
        replicate (unat (s_indentLevel (run_indent cs s) * s_indentWidth s)) CHR '' '')
   \<and> length (fst (indent (run_indent cs s))) =
       (unat (s_indentLevel (run_indent cs s)) * unat (s_indentWidth s)) mod 2 ^ 32
   \<and> s_indentString (snd (indent s)) = fst (indent s)
   \<and> (length (s_indentString s) = unat (s_indentLevel s * s_indentWidth s) \<longrightarrow>
        snd (indent s) = s)
   \<and> unat (s_indentLevel (popIndentLevel s)) \<le> unat (s_indentLevel s)
   \<and> (s_indentLevel s = 0 \<longrightarrow> s_indentLevel (popIndentLevel s) = 0)
   \<and> (unat (s_indentLevel s) + n < 2 ^ 32 \<longrightarrow>
        run_indent (replicate n Push @ replicate n Pop) s = s
      \<and> fst (indent (run_indent (replicate n Push @ replicate n Pop) s)) = fst (indent s))"
proof -
  have lazy: "s_indentString (snd (indent s)) = fst (indent s)
     \<and> (length (s_indentString s) = unat (s_indentLevel s * s_indentWidth s) \<longrightarrow>
          snd (indent s) = s)"
    by (simp add: indent_def Let_def)
  have a: "cache_ok s \<longrightarrow>
      cache_ok (run_indent cs s)
    \<and> fst (indent (run_indent cs s)) =
        replicate (unat (s_indentLevel (run_indent cs s) * s_indentWidth s)) CHR '' ''"
    using indent_spaces [of "run_indent cs s"]
    by (simp add: run_indent_cache_ok run_indent_width)
  have b: "length (fst (indent (run_indent cs s))) =
       (unat (s_indentLevel (run_indent cs s)) * unat (s_indentWidth s)) mod 2 ^ 32"
    by (simp only: length_indent unat_mult32 run_indent_width)
  have c: "unat (s_indentLevel (popIndentLevel s)) \<le> unat (s_indentLevel s)"
    by (simp add: popIndentLevel_def unat_minus_one)
  have d: "s_indentLevel s = 0 \<longrightarrow> s_indentLevel (popIndentLevel s) = 0"
    by (simp add: popIndentLevel_def)
  have e: "unat (s_indentLevel s) + n < 2 ^ 32 \<longrightarrow>
        run_indent (replicate n Push @ replicate n Pop) s = s
      \<and> fst (indent (run_indent (replicate n Push @ replicate n Pop) s)) = fst (indent s)"
    by (simp add: push_pop_restore)
  from a b lazy c d e show ?thesis by blast
qed

theorem C5_indent_tracks_depth_witness:
  "cache_ok world0
   \<and> fst (indent (run_indent [Push, Push] world0)) = replicate 4 CHR '' ''
   \<and> length (fst (indent (run_indent [Push, Pop, Push, Push] world0))) = 4
   \<and> run_indent (replicate 2 Push @ replicate 2 Pop) world0 = world0"
proof -
  have ok: "cache_ok world0"
    by (simp add: cache_ok_def world0_def)
  have l1: "s_indentLevel (run_indent [Push, Push] world0) = 2"
    by (simp add: pushIndentLevel_def world0_def)
  have l2: "s_indentLevel (run_indent [Push, Pop, Push, Push] world0) = 2"
    by (simp add: pushIndentLevel_def popIndentLevel_def world0_def)
  have l3: "s_indentWidth world0 = 2" "s_indentLevel world0 = 0"
    by (simp_all add: world0_def)
  from C5_indent_tracks_depth [where s = world0 and cs = "[Push, Push]"] ok
  have a: "fst (indent (run_indent [Push, Push] world0)) = replicate 4 CHR '' ''"
    by (simp only: l1 l3) simp
  from C5_indent_tracks_depth [where s = world0 and cs = "[Push, Pop, Push, Push]"]
  have b: "length (fst (indent (run_indent [Push, Pop, Push, Push] world0))) = 4"
    by (simp only: l2 l3) simp
  from C5_indent_tracks_depth [where s = world0 and n = 2]
  have c: "run_indent (replicate 2 Push @ replicate 2 Pop) world0 = world0"
    by (simp only: l3) simp
  from ok a b c show ?thesis by simp
qed

section \<open>Where output goes\<close>

lemma Log_shl_logFile: "logFile (snd (Log_shl h d s)) = logFile s"
  by (simp add: Log_shl_def store_other_fields)

lemma Log_shl_manip_logFile: "logFile (snd (Log_shl_manip h f s)) = logFile s"
  by (simp add: Log_shl_manip_def store_other_fields)

lemma Log_chain_Ins: "Log_chain h (Ins d # xs) s = Log_chain h xs (snd (Log_shl h d s))"
  by (simp add: Log_shl_def)

lemma Log_chain_Man: "Log_chain h (Man f # xs) s = Log_chain h xs (snd (Log_shl_manip h f s))"
  by (simp add: Log_shl_manip_def)

lemma Log_chain_logFile: "logFile (snd (Log_chain h xs s)) = logFile s"
proof (induction xs arbitrary: h s)
  case Nil
  then show ?case by simp
next
  case (Cons x xs)
  show ?case
  proof (cases x)
    case (Ins d)
    then show ?thesis
      by (simp only: Log_chain_Ins Cons.IH Log_shl_logFile)
  next
    case (Man f)
    then show ?thesis
      by (simp only: Log_chain_Man Cons.IH Log_shl_manip_logFile)
  next
    case (HideMember m)
    then show ?thesis by (simp add: Cons.IH)
  next
    case (HideFriend m)
    then show ?thesis by (simp add: Cons.IH)
  qed
qed

lemma Log_chain_cerr:
  "m_ostream h = StdCout \<Longrightarrow> cerr (snd (Log_chain h xs s)) = cerr s"
proof (induction xs arbitrary: h s)
  case Nil
  then show ?case by simp
next
  case (Cons x xs)
  show ?case
  proof (cases x)
    case (Ins d)
    have "cerr (snd (Log_chain h xs (snd (Log_shl h d s)))) = cerr (snd (Log_shl h d s))"
      using Cons.prems by (rule Cons.IH)
    with Ins Cons.prems show ?thesis
      by (simp add: Log_shl_def)
  next
    case (Man f)
    have "cerr (snd (Log_chain h xs (snd (Log_shl_manip h f s)))) = cerr (snd (Log_shl_manip h f s))"
      using Cons.prems by (rule Cons.IH)
    with Man Cons.prems show ?thesis
      by (simp add: Log_shl_manip_def)
  next
    case (HideMember m)
    with Cons.prems show ?thesis by (simp add: Cons.IH Log_shl_hideIf_def)
  next
    case (HideFriend m)
    with Cons.prems show ?thesis by (simp add: Cons.IH hideIf_shl_def hide_def)
  qed
qed

lemma init_frame: "cerr (init v b p s) = cerr s" "logFile (init v b p s) = logFile s"
  by (simp_all add: init_unfold setSilent_def setVerboseLevel_def)

lemma indent_frame: "cerr (snd (indent s)) = cerr s" "logFile (snd (indent s)) = logFile s"
   "cout (snd (indent s)) = cout s"
  by (simp_all add: indent_def Let_def)

lemma INDENTED_RELEASE_OUT_frame:
  "cerr (INDENTED_RELEASE_OUT x s) = cerr s" "logFile (INDENTED_RELEASE_OUT x s) = logFile s"
  by (simp_all add: INDENTED_RELEASE_OUT_def indent_def Let_def)

lemma exec_logFile: "\<not> is_benchmark c \<Longrightarrow> logFile (exec fmt c s) = logFile s"
  by (cases c)
    (simp_all add: init_frame indent_frame INDENTED_RELEASE_OUT_frame Log_chain_logFile
      setVerboseLevel_def setSilent_def pushIndentLevel_def popIndentLevel_def
      setBenchmarkFilename_def RELEASE_OUT_def)

lemma benchmark_cerr: "cerr (benchmark fmt e tag c a b l w s) = cerr s"
  by (simp add: benchmark_def Let_def)

lemma benchmark_cout: "cout (benchmark fmt e tag c a b l w s) = cout s"
  by (simp add: benchmark_def Let_def)

lemma exec_cerr:
  "\<not> (c = CallPopIndentLevel \<and> s_indentLevel s = 0) \<Longrightarrow> cerr (exec fmt c s) = cerr s"
  by (cases c)
    (simp_all add: init_frame indent_frame INDENTED_RELEASE_OUT_frame Log_chain_cerr
      m_ostream_Log_ctor benchmark_cerr
      setVerboseLevel_def setSilent_def pushIndentLevel_def popIndentLevel_def
      setBenchmarkFilename_def RELEASE_OUT_def)

lemma benchmark_failed:
  "logFile s = Some f \<Longrightarrow> \<not> is_open f \<Longrightarrow> benchmark fmt e tag c a b l w s = s"
  by (simp add: benchmark_def static_logFile_def)

lemma exec_failed:
  "logFile s = Some f \<Longrightarrow> \<not> is_open f \<Longrightarrow> logFile (exec fmt c s) = Some f"
  by (cases "is_benchmark c") (auto simp: exec_logFile benchmark_failed elim: is_benchmark.elims)

lemma run_failed:
  "logFile s = Some f \<Longrightarrow> \<not> is_open f \<Longrightarrow> logFile (run fmt cs s) = Some f"
  by (induction cs arbitrary: s) (simp_all add: exec_failed)

lemma Log_chain_m_ostream: "m_ostream (fst (Log_chain h xs s)) = m_ostream h"
proof (induction xs arbitrary: h s)
  case Nil
  then show ?case by simp
next
  case (Cons x xs)
  show ?case
    by (cases x)
      (simp_all only: Log_chain_Ins Log_chain_Man Log_chain.simps Cons.IH,
       simp_all add: Log_shl_hideIf_def hideIf_shl_def hide_def)
qed

text \<open>
  Claim C10, as stated: the indent-underflow diagnostic is the only output that does not
  go to the shared sink. A \<open>benchmark\<close> call with the file open is another: it writes a
  record to the benchmark file and nothing to the standard output stream.
\<close>

theorem C10_benchmark_writes_elsewhere:
  "elsewhere (exec (\<lambda>x. x) (CallBenchmark ''0.25'' ''tag'' ''3.14159'' 5 4 2 True) world_open)
     \<noteq> elsewhere world_open
   \<and> CallBenchmark ''0.25'' ''tag'' ''3.14159'' 5 4 2 True \<noteq> CallPopIndentLevel
   \<and> cout (exec (\<lambda>x. x) (CallBenchmark ''0.25'' ''tag'' ''3.14159'' 5 4 2 True) world_open)
     = cout world_open"
  by (simp add: elsewhere_def file_text_def benchmark_def static_logFile_def
      SafeOutFile_shl_def world_open_def world0_def)

text \<open>
  Claim C10, amended. \<open>getOutputStream(level, maxLevel)\<close> is the standard output stream
  whatever its arguments, so every handle is bound to it when constructed and stays bound
  to it through a chained statement. Of all the calls of this header, only a \<open>benchmark\<close>
  call changes the text of the benchmark file, and only a \<open>popIndentLevel\<close> call at
  depth 0 writes to the standard error stream; everything else that is written goes to
  the standard output stream.
\<close>

theorem C10_single_sink:
  "getOutputStream level maxLevel = StdCout
   \<and> m_ostream (Log_ctor s level maxLevel) = StdCout
   \<and> m_ostream (fst (Log_chain (Log_ctor s level maxLevel) xs s)) = StdCout
   \<and> (\<not> is_benchmark c \<longrightarrow> file_text (exec fmt c s) = file_text s)
   \<and> (\<not> (c = CallPopIndentLevel \<and> s_indentLevel s = 0) \<longrightarrow>
        written (cerr (exec fmt c s)) = written (cerr s))
   \<and> (elsewhere (exec fmt c s) \<noteq> elsewhere s \<longrightarrow>
        (c = CallPopIndentLevel \<and> s_indentLevel s = 0) \<or> is_benchmark c)"
proof -
  have a: "getOutputStream level maxLevel = StdCout"
    by (simp add: getOutputStream_def)
  have b: "m_ostream (Log_ctor s level maxLevel) = StdCout"
    by (rule m_ostream_Log_ctor)
  have c: "m_ostream (fst (Log_chain (Log_ctor s level maxLevel) xs s)) = StdCout"
    by (simp only: Log_chain_m_ostream m_ostream_Log_ctor)
  have d: "\<not> is_benchmark c \<longrightarrow> file_text (exec fmt c s) = file_text s"
    by (simp add: file_text_def exec_logFile)
  have e: "\<not> (c = CallPopIndentLevel \<and> s_indentLevel s = 0) \<longrightarrow>
        written (cerr (exec fmt c s)) = written (cerr s)"
    using exec_cerr [of c s fmt] by simp
  from d e have f: "elsewhere (exec fmt c s) \<noteq> elsewhere s \<longrightarrow>
        (c = CallPopIndentLevel \<and> s_indentLevel s = 0) \<or> is_benchmark c"
    unfolding elsewhere_def by auto
  from a b c d e f show ?thesis by blast
qed

theorem C10_single_sink_witness:
  "\<not> is_benchmark (CallLog 0 uint_max [Ins (Value (Str ''x''))] :: string call)
   \<and> file_text (exec (\<lambda>x. x) (CallLog 0 uint_max [Ins (Value (Str ''x''))]) world0) =
       file_text world0
   \<and> written (cerr (exec (\<lambda>x. x) (CallLog 0 uint_max [Ins (Value (Str ''x''))]) world0)) =
       written (cerr world0)
   \<and> written (cout (exec (\<lambda>x. x) (CallLog 0 uint_max [Ins (Value (Str ''x''))]) world0)) =
       [Str ''x'']"
proof -
  have nb: "\<not> is_benchmark (CallLog 0 uint_max [Ins (Value (Str ''x''))] :: string call)"
    by simp
  have np: "\<not> ((CallLog 0 uint_max [Ins (Value (Str ''x''))] :: string call) = CallPopIndentLevel
      \<and> s_indentLevel world0 = 0)"
    by simp
  from C10_single_sink [where c = "CallLog 0 uint_max [Ins (Value (Str ''x''))] :: string call"
      and s = world0 and fmt = "\<lambda>x. x"] nb np
  have a: "file_text (exec (\<lambda>x. x) (CallLog 0 uint_max [Ins (Value (Str ''x''))]) world0) =
       file_text world0
     \<and> written (cerr (exec (\<lambda>x. x) (CallLog 0 uint_max [Ins (Value (Str ''x''))]) world0)) =
       written (cerr world0)"
    by blast
  have b: "written (cout (exec (\<lambda>x. x) (CallLog 0 uint_max [Ins (Value (Str ''x''))]) world0)) =
       [Str ''x'']"
    by (simp add: Log_shl_def Log_ctor_def levelVisible_def getOutputStream_def world0_def
        uint_max_def)
  from nb a b show ?thesis by blast
qed

section \<open>The benchmark file\<close>

text \<open>
  Claim C7. When the one-time open of the benchmark file fails, the call that attempted
  it appends nothing and only records the failed file object; from then on every
  \<open>benchmark\<close> call returns with the process state exactly as it found it, and this stays
  so after any further calls of this header (a later \<open>setBenchmarkFilename\<close> among them:
  the file is not opened again). \<open>benchmark\<close> has no error outcome.
\<close>

theorem C7_failed_open_is_silent:
  "(logFile s = None \<and> s_benchmarkFilename s \<notin> set (openable s) \<longrightarrow>
      benchmark fmt e tag c a b l w s = s\<lparr>logFile := Some \<lparr>is_open = False, contents = []\<rparr>\<rparr>)
   \<and> (logFile s = Some f \<and> \<not> is_open f \<longrightarrow>
      benchmark fmt e tag c a b l w s = s
    \<and> logFile (run fmt cs s) = Some f
    \<and> file_text (run fmt cs s) = file_text s
    \<and> benchmark fmt e tag c a b l w (run fmt cs s) = run fmt cs s)"
proof -
  have a: "logFile s = None \<and> s_benchmarkFilename s \<notin> set (openable s) \<longrightarrow>
      benchmark fmt e tag c a b l w s = s\<lparr>logFile := Some \<lparr>is_open = False, contents = []\<rparr>\<rparr>"
    by (simp add: benchmark_def static_logFile_def SafeOutFile_ctor_def)
  have b: "logFile s = Some f \<and> \<not> is_open f \<longrightarrow>
      benchmark fmt e tag c a b l w s = s
    \<and> logFile (run fmt cs s) = Some f
    \<and> file_text (run fmt cs s) = file_text s
    \<and> benchmark fmt e tag c a b l w (run fmt cs s) = run fmt cs s"
    using run_failed [of s f fmt cs] benchmark_failed [of "run fmt cs s" f]
    by (auto simp: benchmark_failed file_text_def)
  from a b show ?thesis by blast
qed

theorem C7_failed_open_is_silent_witness:
  "logFile world_nofile = None
   \<and> s_benchmarkFilename world_nofile \<notin> set (openable world_nofile)
   \<and> benchmark (\<lambda>x. x) ''0.25'' ''tag'' ''3.14159'' 5 4 2 False world_nofile =
       world_nofile\<lparr>logFile := Some \<lparr>is_open = False, contents = []\<rparr>\<rparr>
   \<and> benchmark (\<lambda>x. x) ''0.5'' ''tag'' ''3.14159'' 5 4 2 False
       (run (\<lambda>x. x) [CallSetBenchmarkFilename ''bench.tsv'']
          (world_nofile\<lparr>logFile := Some \<lparr>is_open = False, contents = []\<rparr>\<rparr>)) =
       run (\<lambda>x. x) [CallSetBenchmarkFilename ''bench.tsv'']
          (world_nofile\<lparr>logFile := Some \<lparr>is_open = False, contents = []\<rparr>\<rparr>)"
proof -
  have n: "logFile world_nofile = None"
    by (simp add: world_nofile_def world0_def)
  have u: "s_benchmarkFilename world_nofile \<notin> set (openable world_nofile)"
    by (simp add: world_nofile_def world0_def)
  from C7_failed_open_is_silent [where s = world_nofile and fmt = "\<lambda>x. x" and e = "''0.25''"
      and tag = "''tag''" and c = "''3.14159''" and a = 5 and b = 4 and l = 2 and w = False] n u
  have a: "benchmark (\<lambda>x. x) ''0.25'' ''tag'' ''3.14159'' 5 4 2 False world_nofile =
       world_nofile\<lparr>logFile := Some \<lparr>is_open = False, contents = []\<rparr>\<rparr>"
    by blast
  have f: "logFile (world_nofile\<lparr>logFile := Some \<lparr>is_open = False, contents = []\<rparr>\<rparr>) =
       Some \<lparr>is_open = False, contents = []\<rparr>
     \<and> \<not> is_open \<lparr>is_open = False, contents = []\<rparr>"
    by simp
  from C7_failed_open_is_silent
    [where s = "world_nofile\<lparr>logFile := Some \<lparr>is_open = False, contents = []\<rparr>\<rparr>"
       and f = "\<lparr>is_open = False, contents = []\<rparr>"
       and cs = "[CallSetBenchmarkFilename ''bench.tsv'']" and fmt = "\<lambda>x. x"
       and e = "''0.5''" and tag = "''tag''" and c = "''3.14159''" and a = 5 and b = 4
       and l = 2 and w = False] f
  have b: "benchmark (\<lambda>x. x) ''0.5'' ''tag'' ''3.14159'' 5 4 2 False
       (run (\<lambda>x. x) [CallSetBenchmarkFilename ''bench.tsv'']
          (world_nofile\<lparr>logFile := Some \<lparr>is_open = False, contents = []\<rparr>\<rparr>)) =
       run (\<lambda>x. x) [CallSetBenchmarkFilename ''bench.tsv'']
          (world_nofile\<lparr>logFile := Some \<lparr>is_open = False, contents = []\<rparr>\<rparr>)"
    by blast
  from n u a b show ?thesis by blast
qed

lemma split_on_no_sep: "c \<notin> set xs \<Longrightarrow> split_on c xs = [xs]"
  by (induction xs) auto

lemma split_on_append: "c \<notin> set xs \<Longrightarrow> split_on c (xs @ c # ys) = xs # split_on c ys"
  by (induction xs) auto

lemma lines_of_one: "newline \<notin> set line \<Longrightarrow> lines_of (line @ [newline]) = [line]"
  by (simp add: lines_of_def split_on_append)

lemma tab_neq_newline: "tab \<noteq> newline"
  by (simp add: tab_def newline_def)

lemma digit_char_in: "d < 10 \<Longrightarrow> digit_char d \<in> set ''0123456789''"
  unfolding digit_char_def by (rule nth_mem) simp

lemma show_nat_digits: "set (show_nat n) \<subseteq> set ''0123456789''"
proof (induction n rule: show_nat.induct)
  case (1 n)
  show ?case
  proof (cases "n < 10")
    case True
    then show ?thesis
      using digit_char_in [of n] by (subst show_nat.simps) simp
  next
    case False
    have "n mod 10 < 10" by simp
    then have "digit_char (n mod 10) \<in> set ''0123456789''"
      by (rule digit_char_in)
    with False 1 show ?thesis
      by (subst show_nat.simps) simp
  qed
qed

lemma clean_show_uint: "clean (show_uint w)"
proof -
  have "tab \<notin> set ''0123456789''" "newline \<notin> set ''0123456789''"
    by (simp_all add: tab_def newline_def)
  with show_nat_digits [of "unat w"] show ?thesis
    unfolding clean_def show_uint_def by blast
qed

lemma file_text_static: "contents (static_logFile s) = file_text s"
  by (simp add: static_logFile_def file_text_def SafeOutFile_ctor_def split: option.splits)

lemma benchmark_text:
  "is_open (static_logFile s) \<Longrightarrow>
   file_text (benchmark fmt e tag c a b l w s) =
   file_text s @ join_fields (benchmark_fields fmt e tag c a b l w) @ [newline]"
  by (simp add: benchmark_def Let_def file_text_def [of "_\<lparr>logFile := _\<rparr>"] SafeOutFile_shl_def
      benchmark_fields_def file_text_static)

lemma fields_one: "clean tag \<Longrightarrow> fields_of tag = [tag]"
  by (simp add: fields_of_def clean_def split_on_no_sep)

lemma fields_six:
  "clean f1 \<Longrightarrow> clean f2 \<Longrightarrow> clean f3 \<Longrightarrow> clean f4 \<Longrightarrow> clean f5 \<Longrightarrow> clean f6 \<Longrightarrow>
   fields_of (join_fields [f1, f2, f3, f4, f5, f6]) = [f1, f2, f3, f4, f5, f6]"
  by (simp add: fields_of_def clean_def split_on_append split_on_no_sep)

lemma newline_six:
  "clean f1 \<Longrightarrow> clean f2 \<Longrightarrow> clean f3 \<Longrightarrow> clean f4 \<Longrightarrow> clean f5 \<Longrightarrow> clean f6 \<Longrightarrow>
   newline \<notin> set (join_fields [f1, f2, f3, f4, f5, f6])"
  using tab_neq_newline by (auto simp add: clean_def)

text \<open>
  Claim C6, as stated: with the file open, \<open>benchmark\<close> appends exactly one line, of one
  field when \<open>writeOnlyTag\<close> is true. The tag is written as it is, so a tag with a tab in
  it gives a line of two fields.
\<close>

theorem C6_tab_in_tag_splits_field:
  "is_open (static_logFile world_open)
   \<and> file_text (benchmark (\<lambda>x. x) ''0.25'' (''a'' @ [tab] @ ''b'') ''3.14159'' 5 4 2 True
        world_open) = ''a'' @ [tab] @ ''b'' @ [newline]
   \<and> lines_of (''a'' @ [tab] @ ''b'' @ [newline]) = [''a'' @ [tab] @ ''b'']
   \<and> fields_of (''a'' @ [tab] @ ''b'') = [''a'', ''b'']"
  by (simp add: benchmark_def static_logFile_def SafeOutFile_shl_def
      file_text_def world_open_def world0_def fields_of_def lines_of_def tab_def newline_def)

text \<open>
  Claim C6, amended. With the benchmark file open, \<open>benchmark\<close> appends to it the fields
  of the record joined by tabs and followed by a newline, and writes to neither standard
  stream: the one field \<open>tag\<close> when \<open>writeOnlyTag\<close> is true, otherwise the six fields
  elapsed seconds, \<open>tag\<close>, \<open>codelength\<close>, \<open>numTopModules\<close>, \<open>numNonTrivialTopModules\<close>,
  \<open>numLevels\<close>. When \<open>tag\<close> holds neither a tab nor a newline (nor do the printed forms of
  the two floating-point values, when they are written), the appended text is exactly one
  line and splitting it at tabs gives back exactly these fields, in this order.
\<close>

theorem C6_benchmark_record:
  "is_open (static_logFile s) \<longrightarrow>
     file_text (benchmark fmt e tag c a b l w s) =
       file_text s @ join_fields (benchmark_fields fmt e tag c a b l w) @ [newline]
   \<and> cout (benchmark fmt e tag c a b l w s) = cout s
   \<and> cerr (benchmark fmt e tag c a b l w s) = cerr s
   \<and> benchmark_fields fmt e tag c a b l w =
       (if w then [tag] else [fmt e, tag, fmt c, show_uint a, show_uint b, show_uint l])
   \<and> (clean tag \<and> (\<not> w \<longrightarrow> clean (fmt e) \<and> clean (fmt c)) \<longrightarrow>
        lines_of (join_fields (benchmark_fields fmt e tag c a b l w) @ [newline]) =
          [join_fields (benchmark_fields fmt e tag c a b l w)]
      \<and> fields_of (join_fields (benchmark_fields fmt e tag c a b l w)) =
          benchmark_fields fmt e tag c a b l w
      \<and> length (fields_of (join_fields (benchmark_fields fmt e tag c a b l w))) =
          (if w then 1 else 6))"
proof -
  have fields: "benchmark_fields fmt e tag c a b l w =
       (if w then [tag] else [fmt e, tag, fmt c, show_uint a, show_uint b, show_uint l])"
    by (simp add: benchmark_fields_def)
  have one: "clean tag \<Longrightarrow> w \<Longrightarrow>
      lines_of (join_fields (benchmark_fields fmt e tag c a b l w) @ [newline]) =
          [join_fields (benchmark_fields fmt e tag c a b l w)]
      \<and> fields_of (join_fields (benchmark_fields fmt e tag c a b l w)) =
          benchmark_fields fmt e tag c a b l w"
    by (simp add: benchmark_fields_def fields_one lines_of_one clean_def)
  have six: "clean tag \<Longrightarrow> clean (fmt e) \<Longrightarrow> clean (fmt c) \<Longrightarrow> \<not> w \<Longrightarrow>
      lines_of (join_fields (benchmark_fields fmt e tag c a b l w) @ [newline]) =
          [join_fields (benchmark_fields fmt e tag c a b l w)]
      \<and> fields_of (join_fields (benchmark_fields fmt e tag c a b l w)) =
          benchmark_fields fmt e tag c a b l w"
  proof -
    assume t: "clean tag" and e: "clean (fmt e)" and c: "clean (fmt c)" and w: "\<not> w"
    from w have f: "benchmark_fields fmt e tag c a b l w =
        [fmt e, tag, fmt c, show_uint a, show_uint b, show_uint l]"
      by (simp add: benchmark_fields_def)
    have 1: "fields_of (join_fields [fmt e, tag, fmt c, show_uint a, show_uint b, show_uint l]) =
        [fmt e, tag, fmt c, show_uint a, show_uint b, show_uint l]"
      by (rule fields_six) (rule t e c clean_show_uint)+
    have 2: "newline \<notin> set (join_fields
        [fmt e, tag, fmt c, show_uint a, show_uint b, show_uint l])"
      by (rule newline_six) (rule t e c clean_show_uint)+
    show ?thesis
      unfolding f using 1 lines_of_one [OF 2] by simp
  qed
  have len: "length (benchmark_fields fmt e tag c a b l w) = (if w then 1 else 6)"
    by (simp add: fields)
  have split: "clean tag \<and> (\<not> w \<longrightarrow> clean (fmt e) \<and> clean (fmt c)) \<longrightarrow>
        lines_of (join_fields (benchmark_fields fmt e tag c a b l w) @ [newline]) =
          [join_fields (benchmark_fields fmt e tag c a b l w)]
      \<and> fields_of (join_fields (benchmark_fields fmt e tag c a b l w)) =
          benchmark_fields fmt e tag c a b l w
      \<and> length (fields_of (join_fields (benchmark_fields fmt e tag c a b l w))) =
          (if w then 1 else 6)"
    using one six len by (cases w) auto
  show ?thesis
  proof (rule impI)
    assume "is_open (static_logFile s)"
    then have appended: "file_text (benchmark fmt e tag c a b l w s) =
        file_text s @ join_fields (benchmark_fields fmt e tag c a b l w) @ [newline]"
      by (rule benchmark_text)
    show "file_text (benchmark fmt e tag c a b l w s) =
        file_text s @ join_fields (benchmark_fields fmt e tag c a b l w) @ [newline]
      \<and> cout (benchmark fmt e tag c a b l w s) = cout s
      \<and> cerr (benchmark fmt e tag c a b l w s) = cerr s
      \<and> benchmark_fields fmt e tag c a b l w =
          (if w then [tag] else [fmt e, tag, fmt c, show_uint a, show_uint b, show_uint l])
      \<and> (clean tag \<and> (\<not> w \<longrightarrow> clean (fmt e) \<and> clean (fmt c)) \<longrightarrow>
          lines_of (join_fields (benchmark_fields fmt e tag c a b l w) @ [newline]) =
            [join_fields (benchmark_fields fmt e tag c a b l w)]
        \<and> fields_of (join_fields (benchmark_fields fmt e tag c a b l w)) =
            benchmark_fields fmt e tag c a b l w
        \<and> length (fields_of (join_fields (benchmark_fields fmt e tag c a b l w))) =
            (if w then 1 else 6))"
      by (intro conjI) (rule appended benchmark_cout benchmark_cerr fields split)+
  qed
qed

theorem C6_benchmark_record_witness:
  "is_open (static_logFile world_open)
   \<and> clean ''initial_partition'' \<and> clean ''0.25'' \<and> clean ''3.14159''
   \<and> file_text (benchmark (\<lambda>x. x) ''0.25'' ''initial_partition'' ''3.14159'' 5 4 2 False world_open) =
       ''0.25'' @ [tab] @ ''initial_partition'' @ [tab] @ ''3.14159'' @ [tab] @ ''5'' @ [tab]
         @ ''4'' @ [tab] @ ''2'' @ [newline]
   \<and> fields_of (''0.25'' @ [tab] @ ''initial_partition'' @ [tab] @ ''3.14159'' @ [tab] @ ''5''
         @ [tab] @ ''4'' @ [tab] @ ''2'') =
       [''0.25'', ''initial_partition'', ''3.14159'', ''5'', ''4'', ''2'']
   \<and> file_text (benchmark (\<lambda>x. x) ''0.25'' ''initial_partition'' ''3.14159'' 5 4 2 True world_open) =
       ''initial_partition'' @ [newline]"
proof -
  have op: "is_open (static_logFile world_open)"
    by (simp add: static_logFile_def world_open_def)
  have cl: "clean ''initial_partition''" "clean ''0.25''" "clean ''3.14159''"
    by (simp_all add: clean_def tab_def newline_def)
  have ft: "file_text world_open = []"
    by (simp add: file_text_def world_open_def)
  have bf: "benchmark_fields (\<lambda>x. x) ''0.25'' ''initial_partition'' ''3.14159'' 5 4 2 False =
      [''0.25'', ''initial_partition'', ''3.14159'', ''5'', ''4'', ''2'']"
    by (simp add: benchmark_fields_def show_uint_def show_nat.simps digit_char_def)
  have bt: "benchmark_fields (\<lambda>x. x) ''0.25'' ''initial_partition'' ''3.14159'' 5 4 2 True =
      [''initial_partition'']"
    by (simp add: benchmark_fields_def)
  note six = C6_benchmark_record [where s = world_open and fmt = "\<lambda>x. x" and e = "''0.25''"
      and tag = "''initial_partition''" and c = "''3.14159''" and a = 5 and b = 4 and l = 2
      and w = False]
  note one = C6_benchmark_record [where s = world_open and fmt = "\<lambda>x. x" and e = "''0.25''"
      and tag = "''initial_partition''" and c = "''3.14159''" and a = 5 and b = 4 and l = 2
      and w = True]
  from six op cl
  have s1: "file_text (benchmark (\<lambda>x. x) ''0.25'' ''initial_partition'' ''3.14159'' 5 4 2 False
        world_open) =
      file_text world_open @ join_fields (benchmark_fields (\<lambda>x. x) ''0.25'' ''initial_partition''
        ''3.14159'' 5 4 2 False) @ [newline]"
    by blast
  from six op cl
  have s2: "fields_of (join_fields (benchmark_fields (\<lambda>x. x) ''0.25'' ''initial_partition''
        ''3.14159'' 5 4 2 False)) =
      benchmark_fields (\<lambda>x. x) ''0.25'' ''initial_partition'' ''3.14159'' 5 4 2 False"
    by blast
  from one op
  have s3: "file_text (benchmark (\<lambda>x. x) ''0.25'' ''initial_partition'' ''3.14159'' 5 4 2 True
        world_open) =
      file_text world_open @ join_fields (benchmark_fields (\<lambda>x. x) ''0.25'' ''initial_partition''
        ''3.14159'' 5 4 2 True) @ [newline]"
    by blast
  have a: "file_text (benchmark (\<lambda>x. x) ''0.25'' ''initial_partition'' ''3.14159'' 5 4 2 False
        world_open) =
       ''0.25'' @ [tab] @ ''initial_partition'' @ [tab] @ ''3.14159'' @ [tab] @ ''5'' @ [tab]
         @ ''4'' @ [tab] @ ''2'' @ [newline]"
    by (simp only: s1 bf ft) simp
  have b: "fields_of (''0.25'' @ [tab] @ ''initial_partition'' @ [tab] @ ''3.14159'' @ [tab]
         @ ''5'' @ [tab] @ ''4'' @ [tab] @ ''2'') =
       [''0.25'', ''initial_partition'', ''3.14159'', ''5'', ''4'', ''2'']"
    using s2 by (simp only: bf) simp
  have c: "file_text (benchmark (\<lambda>x. x) ''0.25'' ''initial_partition'' ''3.14159'' 5 4 2 True
        world_open) = ''initial_partition'' @ [newline]"
    by (simp only: s3 bt ft) simp
  from op cl a b c show ?thesis by blast
qed

end
